theory Spec2Isabelle
  imports Complex_Main "HOL-Library.Log_Nat" "HOL-Library.Char_ord" "HOL-Library.List_Lexorder"
begin

section \<open>Go runtime: panics, string indexing and slicing\<close>

text \<open>
  A Go string is a sequence of bytes: \<open>string\<close> (a \<open>char list\<close>). Indices are Go
  \<open>int\<close>s, modelled as \<open>int\<close> (no index used here comes near 64 bits). An index
  expression \<open>s[i]\<close> and a slice expression \<open>s[lo:hi]\<close> panic out of range; the panic
  is the \<open>Inl\<close> branch of the result.
\<close>

datatype panic = IndexOutOfRange | SliceBoundsOutOfRange | NilPointerDereference

definition and_then :: "panic + 'a \<Rightarrow> ('a \<Rightarrow> panic + 'b) \<Rightarrow> panic + 'b" where
  "and_then m f = (case m of Inl p \<Rightarrow> Inl p | Inr v \<Rightarrow> f v)"

definition len :: "string \<Rightarrow> int" where
  "len s = int (length s)"

definition byte_at :: "string \<Rightarrow> int \<Rightarrow> panic + char" where
  "byte_at s i = (if 0 \<le> i \<and> i < len s then Inr (s ! nat i) else Inl IndexOutOfRange)"

definition str_slice :: "string \<Rightarrow> int \<Rightarrow> int \<Rightarrow> panic + string" where
  "str_slice s lo hi =
     (if 0 \<le> lo \<and> lo \<le> hi \<and> hi \<le> len s
      then Inr (take (nat (hi - lo)) (drop (nat lo) s))
      else Inl SliceBoundsOutOfRange)"

section \<open>The standard-library functions the parser calls\<close>

text \<open>
  \<open>strings.HasPrefix\<close>, \<open>strings.LastIndex\<close>, the byte searches of
  \<open>internal/bytealg\<close>, \<open>net.SplitHostPort\<close> and \<open>strconv.ParseUint\<close> belong to
  the Go standard library; they are transcribed here as the library defines them, a search
  returning \<open>-1\<close> when nothing is found.
\<close>

definition strings_HasPrefix :: "string \<Rightarrow> string \<Rightarrow> bool" where
  "strings_HasPrefix s pre = (length pre \<le> length s \<and> take (length pre) s = pre)"

fun strings_LastIndex :: "string \<Rightarrow> string \<Rightarrow> int" where
  "strings_LastIndex [] substr = (if substr = [] then 0 else - 1)"
| "strings_LastIndex (c # s) substr =
     (let r = strings_LastIndex s substr in
      if 0 \<le> r then r + 1
      else if strings_HasPrefix (c # s) substr then 0 else - 1)"

fun IndexByteString :: "string \<Rightarrow> char \<Rightarrow> int" where
  "IndexByteString [] c = - 1"
| "IndexByteString (x # s) c =
     (if x = c then 0
      else (let r = IndexByteString s c in if r < 0 then - 1 else r + 1))"

fun LastIndexByteString :: "string \<Rightarrow> char \<Rightarrow> int" where
  "LastIndexByteString [] c = - 1"
| "LastIndexByteString (x # s) c =
     (let r = LastIndexByteString s c in
      if 0 \<le> r then r + 1 else if x = c then 0 else - 1)"

subsection \<open>net.SplitHostPort\<close>

datatype addr_why =
  MissingPort | TooManyColons | MissingBracket | UnexpectedOpenBracket | UnexpectedCloseBracket

datatype AddrError = AddrError (Err: addr_why) (Addr: string)

text \<open>
  The common end of \<open>net.SplitHostPort\<close>: no \<open>[\<close> from position \<open>j\<close> on, no \<open>]\<close>
  from position \<open>k\<close> on, and the port is what follows the last colon (position \<open>i\<close>).
\<close>

definition SplitHostPort_rest ::
  "string \<Rightarrow> string \<Rightarrow> int \<Rightarrow> int \<Rightarrow> int \<Rightarrow> panic + (AddrError + string \<times> string)" where
  "SplitHostPort_rest hostport host j k i =
     and_then (str_slice hostport j (len hostport)) (\<lambda>sj.
       if 0 \<le> IndexByteString sj CHR ''['' then Inr (Inl (AddrError UnexpectedOpenBracket hostport))
       else and_then (str_slice hostport k (len hostport)) (\<lambda>sk.
         if 0 \<le> IndexByteString sk CHR '']'' then Inr (Inl (AddrError UnexpectedCloseBracket hostport))
         else and_then (str_slice hostport (i + 1) (len hostport)) (\<lambda>port.
           Inr (Inr (host, port)))))"

definition net_SplitHostPort :: "string \<Rightarrow> panic + (AddrError + string \<times> string)" where
  "net_SplitHostPort hostport =
     (let i = LastIndexByteString hostport CHR '':'' in
      if i < 0 then Inr (Inl (AddrError MissingPort hostport))
      else and_then (byte_at hostport 0) (\<lambda>c0.
        if c0 = CHR ''['' then
          (let endb = IndexByteString hostport CHR '']'' in
           if endb < 0 then Inr (Inl (AddrError MissingBracket hostport))
           else if endb + 1 = len hostport then Inr (Inl (AddrError MissingPort hostport))
           else if endb + 1 = i then
             and_then (str_slice hostport 1 endb) (\<lambda>host.
               SplitHostPort_rest hostport host 1 (endb + 1) i)
           else and_then (byte_at hostport (endb + 1)) (\<lambda>c.
             if c = CHR '':'' then Inr (Inl (AddrError TooManyColons hostport))
             else Inr (Inl (AddrError MissingPort hostport))))
        else
          and_then (str_slice hostport 0 i) (\<lambda>host.
            if 0 \<le> IndexByteString host CHR '':''
            then Inr (Inl (AddrError TooManyColons hostport))
            else SplitHostPort_rest hostport host 0 0 i)))"

subsection \<open>strconv.ParseUint, at base 10 and bit size 16\<close>

datatype NumError = ErrSyntax | ErrRange

definition maxUint64 :: int where
  "maxUint64 = 2 ^ 64 - 1"

text \<open>
  The digit loop; a \<open>uint64\<close> is an \<open>int\<close> with the wrap-around written out. At base 10 every byte
  that is not a decimal digit is a syntax error (a letter's digit value is at least 10,
  and \<open>_\<close> is accepted at base 0 only).
\<close>

fun ParseUint_loop :: "int \<Rightarrow> int \<Rightarrow> int \<Rightarrow> string \<Rightarrow> NumError + int" where
  "ParseUint_loop cutoff maxVal n [] = Inr n"
| "ParseUint_loop cutoff maxVal n (c # s) =
     (if 48 \<le> (of_char c :: int) \<and> (of_char c :: int) \<le> 57 then
        (let d = (of_char c :: int) - 48 in
         if cutoff \<le> n then Inl ErrRange
         else
           (let n10 = (n * 10) mod 2 ^ 64;
                n1 = (n10 + d) mod 2 ^ 64
            in if n1 < n10 \<or> maxVal < n1 then Inl ErrRange
               else ParseUint_loop cutoff maxVal n1 s))
      else Inl ErrSyntax)"

definition strconv_ParseUint_10_16 :: "string \<Rightarrow> NumError + int" where
  "strconv_ParseUint_10_16 s =
     (if s = [] then Inl ErrSyntax
      else ParseUint_loop (maxUint64 div 10 + 1) (2 ^ 16 - 1) 0 s)"

section \<open>semconv: splitHostPort\<close>

text \<open>
  What follows the two early-return blocks of \<open>splitHostPort\<close>. The short declaration
  \<open>host, pStr, err := net.SplitHostPort(hostport)\<close> assigns the named result \<open>host\<close>,
  so each bare \<open>return\<close> after it returns that host with the port still \<open>-1\<close>.
\<close>

definition splitHostPort_full :: "string \<Rightarrow> int \<Rightarrow> panic + (string \<times> int)" where
  "splitHostPort_full hostport port =
     and_then (net_SplitHostPort hostport) (\<lambda>r.
       case r of
         Inl err \<Rightarrow> Inr ('''', port)
       | Inr (host, pStr) \<Rightarrow>
           (case strconv_ParseUint_10_16 pStr of
              Inl err \<Rightarrow> Inr (host, port)
            | Inr p \<Rightarrow> Inr (host, p)))"

definition splitHostPort :: "string \<Rightarrow> panic + (string \<times> int)" where
  "splitHostPort hostport =
     (let port = - 1 in
      if strings_HasPrefix hostport ''['' then
        (let addrEnd = strings_LastIndex hostport '']'' in
         if addrEnd < 0 then Inr ('''', port)
         else and_then (str_slice hostport addrEnd (len hostport)) (\<lambda>tl.
           if strings_LastIndex tl '':'' < 0
           then and_then (str_slice hostport 1 addrEnd) (\<lambda>host. Inr (host, port))
           else splitHostPort_full hostport port))
      else
        if strings_LastIndex hostport '':'' < 0 then Inr (hostport, port)
        else splitHostPort_full hostport port)"

section \<open>semconv: attributes of a request and of a response\<close>

text \<open>
  An \<open>attribute.KeyValue\<close> is a key and a typed value; \<open>Key.Int\<close> and
  \<open>Key.String\<close> build one. The three keys are those of the semantic conventions
  v1.21.0, as the comments of \<open>ClientResponse\<close> and \<open>ClientRequest\<close> spell them.
\<close>

datatype Value = INT64 int | STRING string

datatype KeyValue = KeyValue (Key: string) (Value: Value)

definition Key_Int :: "string \<Rightarrow> int \<Rightarrow> KeyValue" where
  "Key_Int k v = KeyValue k (INT64 v)"

definition Key_String :: "string \<Rightarrow> string \<Rightarrow> KeyValue" where
  "Key_String k v = KeyValue k (STRING v)"

definition HTTPRequestMethodKey :: string where
  "HTTPRequestMethodKey = ''http.request.method''"

definition HTTPResponseStatusCodeKey :: string where
  "HTTPResponseStatusCodeKey = ''http.response.status_code''"

definition ServerAddressKey :: string where
  "ServerAddressKey = ''server.address''"

record httpConv =
  httpRequestMethodKey :: string
  httpResponseStatusCodeKey :: string
  serverAddressKey :: string

definition hc :: httpConv where
  "hc = \<lparr> httpRequestMethodKey = HTTPRequestMethodKey,
          httpResponseStatusCodeKey = HTTPResponseStatusCodeKey,
          serverAddressKey = ServerAddressKey \<rparr>"

text \<open>
  The fields of \<open>http.Request\<close> and \<open>http.Response\<close> that the caller sees; the
  extractors read \<open>Method\<close>, \<open>Host\<close> and \<open>StatusCode\<close> only.
\<close>

record Request =
  Method :: string
  URL :: string
  Header :: "(string \<times> string list) list"
  Host :: string

record Response =
  StatusCode :: int
  ResponseHeader :: "(string \<times> string list) list"
  Body :: string

text \<open>
  \<open>ClientResponse\<close> takes a pointer; reading \<open>res.StatusCode\<close> through a nil
  pointer panics.
\<close>

definition ClientResponse :: "Response option \<Rightarrow> panic + KeyValue list" where
  "ClientResponse res =
     (case res of
        None \<Rightarrow> Inl NilPointerDereference
      | Some resp \<Rightarrow>
          (let attrs = [] in
           if 0 < StatusCode resp
           then Inr (attrs @ [Key_Int (httpRequestMethodKey hc) (StatusCode resp)])
           else Inr attrs))"

definition peerName :: "httpConv \<Rightarrow> string \<Rightarrow> panic + KeyValue list" where
  "peerName c address =
     and_then (splitHostPort address) (\<lambda>(h, p).
       (let n = (if h \<noteq> [] then (if 0 < p then 2 else 1) else (0 :: int)) in
        if n = 0 then Inr []
        else Inr [Key_String (serverAddressKey c) h]))"

definition ClientRequest :: "Request \<Rightarrow> panic + KeyValue list" where
  "ClientRequest req =
     (let attrs = [Key_String (httpRequestMethodKey hc) (Method req)] in
      and_then (splitHostPort (Host req)) (\<lambda>(peer, _).
        if peer \<noteq> []
        then and_then (peerName hc peer) (\<lambda>pn. Inr (attrs @ pn))
        else Inr attrs))"

section \<open>attribute.NewSet and metric.WithAttributes\<close>

text \<open>
  \<open>metric.WithAttributes\<close> copies the attributes it is given and keeps
  \<open>attribute.NewSet\<close> of the copy; this set is what \<open>Record\<close> receives with the
  value. \<open>NewSet\<close> sorts the attributes by key with a stable sort (keys are compared as
  Go strings, byte by byte) and then walks the sorted slice from its end, keeping an
  attribute when its key differs from the key of the one kept last: of the attributes
  of one key the last one given remains. Both functions belong to the OpenTelemetry
  library; they are transcribed here. A set is represented by its sorted slice.
\<close>

definition dedup_last :: "KeyValue list \<Rightarrow> KeyValue list" where
  "dedup_last kvs =
     foldr (\<lambda>kv kept.
              case kept of
                [] \<Rightarrow> [kv]
              | k # _ \<Rightarrow> if Key kv = Key k then kept else kv # kept)
           kvs []"

definition attribute_NewSet :: "KeyValue list \<Rightarrow> KeyValue list" where
  "attribute_NewSet kvs = (if kvs = [] then [] else dedup_last (sort_key Key kvs))"

definition metric_WithAttributes :: "KeyValue list \<Rightarrow> KeyValue list" where
  "metric_WithAttributes attributes = attribute_NewSet attributes"

section \<open>float64\<close>

text \<open>
  A finite \<open>float64\<close> is a rational number. \<open>f64_round\<close> is the rounding of IEEE 754
  binary64: to the nearest number with a 53-bit significand, a tie going to the even
  significand, the exponent held at \<open>-1022\<close> for the subnormal numbers. A conversion
  \<open>float64(i)\<close> rounds the integer, and a division rounds the exact quotient. Overflow
  to infinity and division by zero do not occur on the values used here (an \<open>int64\<close>
  divided by \<open>1000000\<close>), and are not modelled.
\<close>

definition round_half_even :: "int \<Rightarrow> int \<Rightarrow> int" where
  "round_half_even num den =
     (let q = num div den; r = num mod den
      in if den < 2 * r \<or> (2 * r = den \<and> odd q) then q + 1 else q)"

definition f64_round :: "rat \<Rightarrow> rat" where
  "f64_round x =
     (if x = 0 then 0
      else
        (let (p, q) = quotient_of \<bar>x\<bar>;
             e0 = bitlen p - bitlen q;
             e = (if (if 0 \<le> e0 then q * 2 ^ nat e0 \<le> p else q \<le> p * 2 ^ nat (- e0))
                  then e0 else e0 - 1);
             s = max e (- 1022) - 52;
             n = (if 0 \<le> s then round_half_even p (q * 2 ^ nat s)
                  else round_half_even (p * 2 ^ nat (- s)) q)
         in sgn x * of_int n * (if 0 \<le> s then 2 ^ nat s else 1 / 2 ^ nat (- s))))"

definition f64_of_int :: "int \<Rightarrow> rat" where
  "f64_of_int i = f64_round (of_int i)"

definition f64_div :: "rat \<Rightarrow> rat \<Rightarrow> rat" where
  "f64_div x y = f64_round (x / y)"

section \<open>httpclient: the measuring transport\<close>

text \<open>
  The world a call runs in: \<open>now\<close>, the reading of the monotonic clock in nanoseconds;
  \<open>lag\<close>, the nanoseconds that pass on that clock while \<open>RoundTrip\<close> builds the
  attributes, between the return of the wrapped dispatcher and the reading of
  \<open>time.Since\<close>; and \<open>recorded\<close>, what the histogram \<open>httpLatency\<close> has been handed
  so far. A recorded measurement is the \<open>float64\<close> value and the attribute set of the
  measurement option. The wrapped \<open>http.RoundTripper\<close> is any function of the request
  and the world: it returns the response pointer (nil is \<open>None\<close>) and the error (nil is
  \<open>None\<close>), the request object as it leaves it (the request is passed by pointer), and
  the new world. The context \<open>r.Context()\<close> that goes to \<open>Record\<close> with the value is
  left out.
\<close>

datatype go_error = GoError string

record Measurement =
  incr :: rat
  attrs :: "KeyValue list"

record World =
  now :: int
  lag :: nat
  recorded :: "Measurement list"

type_synonym RoundTripper =
  "Request \<Rightarrow> World \<Rightarrow> (Response option \<times> go_error option) \<times> Request \<times> World"

record Transport =
  rt :: RoundTripper

definition Millisecond :: int where
  "Millisecond = 1000000"

definition maxDuration :: int where
  "maxDuration = 2 ^ 63 - 1"

definition minDuration :: int where
  "minDuration = - (2 ^ 63)"

text \<open>
  \<open>time.Since(t)\<close> for a \<open>t\<close> that \<open>time.Now\<close> returned: the monotonic reading now
  minus the reading of \<open>t\<close>, as a \<open>Duration\<close>, held at the largest or the smallest
  \<open>Duration\<close> when the difference does not fit.
\<close>

definition time_Since :: "int \<Rightarrow> World \<Rightarrow> int" where
  "time_Since t w =
     (let d = now w - t
      in if maxDuration < d then maxDuration
         else if d < minDuration then minDuration
         else d)"

definition RoundTrip ::
  "Transport \<Rightarrow> Request \<Rightarrow> World
     \<Rightarrow> (panic + Response option \<times> go_error option) \<times> Request \<times> World" where
  "RoundTrip t r w =
     (let startTime = now w;
          ((res, err), r1, w1) = rt t r w
      in if err \<noteq> None then (Inr (res, err), r1, w1)
         else
           (case and_then (ClientRequest r1) (\<lambda>reqAttrs.
                   and_then (ClientResponse res) (\<lambda>resAttrs.
                     Inr (reqAttrs @ resAttrs))) of
              Inl p \<Rightarrow> (Inl p, r1, w1)
            | Inr as \<Rightarrow>
                (let measureOptions = metric_WithAttributes as;
                     w2 = w1\<lparr>now := now w1 + int (lag w1)\<rparr>;
                     elapsedTime =
                       f64_div (f64_of_int (time_Since startTime w2)) (f64_of_int Millisecond)
                 in (Inr (res, err), r1,
                     w2\<lparr>recorded := recorded w2 @
                          [\<lparr>incr = elapsedTime, attrs = measureOptions\<rparr>]\<rparr>))))"

section \<open>Facts about the searches and the slices\<close>

lemma IndexByteString_lower: "- 1 \<le> IndexByteString s c"
  by (induction s) (auto simp: Let_def)

lemma IndexByteString_upper: "IndexByteString s c < len s"
  by (induction s) (auto simp: Let_def len_def)

lemma IndexByteString_nth:
  "0 \<le> IndexByteString s c \<Longrightarrow> s ! nat (IndexByteString s c) = c"
  by (induction s) (auto simp: Let_def nat_add_distrib split: if_splits)

lemma IndexByteString_neg_iff: "IndexByteString s c < 0 \<longleftrightarrow> c \<notin> set s"
proof (induction s)
  case Nil
  then show ?case by simp
next
  case (Cons x s)
  with IndexByteString_lower [of s c] show ?case by (auto simp: Let_def)
qed

lemma LastIndexByteString_upper: "LastIndexByteString s c < len s"
  by (induction s) (auto simp: Let_def len_def)

lemma LastIndexByteString_nth:
  "0 \<le> LastIndexByteString s c \<Longrightarrow> s ! nat (LastIndexByteString s c) = c"
  by (induction s) (auto simp: Let_def nat_add_distrib split: if_splits)

lemma LastIndexByteString_neg_iff: "LastIndexByteString s c < 0 \<longleftrightarrow> c \<notin> set s"
  by (induction s) (auto simp: Let_def)

text \<open>The last occurrence is at or after every occurrence.\<close>

lemma LastIndexByteString_ge:
  "j < length s \<Longrightarrow> s ! j = c \<Longrightarrow> int j \<le> LastIndexByteString s c"
proof (induction s arbitrary: j)
  case Nil
  then show ?case by simp
next
  case (Cons x s)
  show ?case
  proof (cases j)
    case 0
    with Cons.prems show ?thesis
      using LastIndexByteString_neg_iff [of s c] by (auto simp: Let_def)
  next
    case (Suc k)
    with Cons.prems have "int k \<le> LastIndexByteString s c"
      by (intro Cons.IH) simp_all
    with Suc show ?thesis by (simp add: Let_def)
  qed
qed

text \<open>A byte absent from position \<open>k\<close> on has its last occurrence before \<open>k\<close>.\<close>

lemma LastIndexByteString_before:
  assumes "c \<notin> set (drop k s)"
  shows "LastIndexByteString s c < int k"
proof (rule ccontr)
  assume "\<not> LastIndexByteString s c < int k"
  then have ge: "int k \<le> LastIndexByteString s c" by simp
  then have nn: "0 \<le> LastIndexByteString s c" by simp
  define a where "a = nat (LastIndexByteString s c)"
  have a_lt: "a < length s"
    using LastIndexByteString_upper [of s c] nn by (simp add: a_def len_def)
  have a_c: "s ! a = c"
    using LastIndexByteString_nth [OF nn] by (simp add: a_def)
  have k_le: "k \<le> a" using ge nn by (simp add: a_def)
  have "drop k s ! (a - k) = s ! a" using k_le a_lt by simp
  moreover have "a - k < length (drop k s)" using k_le a_lt by simp
  ultimately have "c \<in> set (drop k s)" using a_c by (metis nth_mem)
  with assms show False by simp
qed

text \<open>With a one-byte separator \<open>strings.LastIndex\<close> is the byte search.\<close>

lemma strings_LastIndex_single: "strings_LastIndex s [c] = LastIndexByteString s c"
  by (induction s) (auto simp: Let_def strings_HasPrefix_def)

lemma strings_HasPrefix_bracket:
  "strings_HasPrefix s ''['' \<longleftrightarrow> (\<exists>t. s = CHR ''['' # t)"
  by (cases s) (auto simp: strings_HasPrefix_def)

section \<open>strconv.ParseUint stays within 16 bits\<close>

lemma ParseUint_loop_range:
  "ParseUint_loop cutoff maxVal n s = Inr v \<Longrightarrow> 0 \<le> n \<Longrightarrow> n \<le> maxVal \<Longrightarrow>
   0 \<le> v \<and> v \<le> maxVal"
  by (induction cutoff maxVal n s rule: ParseUint_loop.induct)
     (auto simp: Let_def split: if_splits)

lemma strconv_ParseUint_10_16_range:
  "strconv_ParseUint_10_16 s = Inr v \<Longrightarrow> 0 \<le> v \<and> v \<le> 65535"
  using ParseUint_loop_range [of "maxUint64 div 10 + 1" "2 ^ 16 - 1" 0 s v]
  by (simp add: strconv_ParseUint_10_16_def split: if_splits)

section \<open>net.SplitHostPort never panics\<close>

lemma SplitHostPort_rest_total:
  assumes "0 \<le> j" "j \<le> len s" "0 \<le> k" "k \<le> len s" "0 \<le> i" "i < len s"
  shows "\<exists>r. SplitHostPort_rest s host j k i = Inr r"
  using assms by (simp add: SplitHostPort_rest_def str_slice_def and_then_def)

lemma net_SplitHostPort_total: "\<exists>r. net_SplitHostPort s = Inr r"
proof -
  define i where "i = LastIndexByteString s CHR '':''"
  define e where "e = IndexByteString s CHR '']''"
  have i_lt: "i < len s"
    unfolding i_def by (rule LastIndexByteString_upper)
  have e_lt: "e < len s"
    unfolding e_def by (rule IndexByteString_upper)
  show ?thesis
  proof (cases "i < 0")
    case True
    then show ?thesis
      by (simp add: net_SplitHostPort_def i_def [symmetric])
  next
    case no_colon: False
    then have i0: "0 \<le> i" by simp
    with i_lt have pos: "0 < len s" by simp
    then have first: "byte_at s 0 = Inr (s ! 0)"
      by (simp add: byte_at_def)
    show ?thesis
    proof (cases "s ! 0 = CHR ''[''")
      case bracket: True
      show ?thesis
      proof (cases "e < 0")
        case True
        with no_colon first bracket show ?thesis
          by (simp add: net_SplitHostPort_def i_def [symmetric] e_def [symmetric] and_then_def)
      next
        case e0: False
        then have "s ! nat e = CHR '']''"
          unfolding e_def by (simp add: IndexByteString_nth)
        with bracket have "e \<noteq> 0" by auto
        with e0 have e1: "1 \<le> e" by simp
        have "\<exists>h. str_slice s 1 e = Inr h"
          using e1 e_lt by (simp add: str_slice_def)
        then obtain h where h: "str_slice s 1 e = Inr h" by blast
        have "\<exists>r. SplitHostPort_rest s h 1 (e + 1) i = Inr r"
          using e1 e_lt i0 i_lt pos by (intro SplitHostPort_rest_total) simp_all
        then obtain r where r: "SplitHostPort_rest s h 1 (e + 1) i = Inr r" by blast
        have nxt: "e + 1 \<noteq> len s \<Longrightarrow> byte_at s (e + 1) = Inr (s ! nat (e + 1))"
          using e1 e_lt by (simp add: byte_at_def)
        show ?thesis
        proof (cases "e + 1 = i")
          case True
          with no_colon first bracket e0 h r i_lt show ?thesis
            by (simp add: net_SplitHostPort_def i_def [symmetric] e_def [symmetric] and_then_def)
        next
          case False
          with no_colon first bracket e0 nxt show ?thesis
            by (simp add: net_SplitHostPort_def i_def [symmetric] e_def [symmetric] and_then_def)
        qed
      qed
    next
      case plain: False
      have sl: "str_slice s 0 i = Inr (take (nat i) s)"
        using i0 i_lt by (simp add: str_slice_def)
      have "\<exists>r. SplitHostPort_rest s (take (nat i) s) 0 0 i = Inr r"
        using i0 i_lt pos by (intro SplitHostPort_rest_total) simp_all
      then obtain r where r: "SplitHostPort_rest s (take (nat i) s) 0 0 i = Inr r" by blast
      show ?thesis
        using no_colon first plain sl r
        by (simp add: net_SplitHostPort_def i_def [symmetric] and_then_def)
    qed
  qed
qed

section \<open>What a successful net.SplitHostPort says about its argument\<close>

lemma SplitHostPort_rest_success:
  "SplitHostPort_rest s host j k i = Inr (Inr (h, p)) \<Longrightarrow>
   0 \<le> k \<and> CHR '']'' \<notin> set (drop (nat k) s)"
  by (auto simp: SplitHostPort_rest_def and_then_def str_slice_def IndexByteString_neg_iff
        len_def not_le
      split: if_splits sum.splits)

lemma net_SplitHostPort_success_colon:
  "net_SplitHostPort s = Inr (Inr (h, p)) \<Longrightarrow> 0 \<le> LastIndexByteString s CHR '':''"
  by (auto simp: net_SplitHostPort_def Let_def split: if_splits)

text \<open>
  In the bracket form the first \<open>]\<close> stands just before the last colon, and no \<open>]\<close>
  follows that colon.
\<close>

lemma net_SplitHostPort_success_bracket:
  assumes "net_SplitHostPort (CHR ''['' # t) = Inr (Inr (h, p))"
  shows "0 \<le> IndexByteString (CHR ''['' # t) CHR '']''
    \<and> IndexByteString (CHR ''['' # t) CHR '']'' + 1 = LastIndexByteString (CHR ''['' # t) CHR '':''
    \<and> CHR '']'' \<notin> set (drop (nat (LastIndexByteString (CHR ''['' # t) CHR '':'')) (CHR ''['' # t))"
proof -
  define s where "s = CHR ''['' # t"
  define i where "i = LastIndexByteString s CHR '':''"
  define e where "e = IndexByteString s CHR '']''"
  have first: "byte_at s 0 = Inr CHR ''[''"
    by (simp add: s_def byte_at_def len_def)
  from assms have ok: "net_SplitHostPort s = Inr (Inr (h, p))"
    by (simp add: s_def)
  have i0: "\<not> i < 0"
    using net_SplitHostPort_success_colon [OF ok] by (simp add: i_def)
  from ok i0 first have e0: "\<not> e < 0"
    by (auto simp: net_SplitHostPort_def i_def [symmetric] e_def [symmetric] and_then_def
        split: if_splits)
  from ok i0 first e0 have ei: "e + 1 = i"
    by (auto simp: net_SplitHostPort_def i_def [symmetric] e_def [symmetric] and_then_def
        split: if_splits sum.splits)
  from ok i0 first e0 ei obtain host where "SplitHostPort_rest s host 1 i i = Inr (Inr (h, p))"
    by (auto simp: net_SplitHostPort_def i_def [symmetric] e_def [symmetric] and_then_def
        split: if_splits sum.splits)
  from SplitHostPort_rest_success [OF this] have "CHR '']'' \<notin> set (drop (nat i) s)"
    by simp
  with e0 ei show ?thesis
    by (simp add: s_def [symmetric] e_def [symmetric] i_def [symmetric])
qed

section \<open>splitHostPort: which branch runs, and that it returns\<close>

text \<open>
  Whenever \<open>net.SplitHostPort\<close> accepts the string, neither early return of
  \<open>splitHostPort\<close> is taken.
\<close>

lemma splitHostPort_reaches_full:
  assumes ok: "net_SplitHostPort s = Inr (Inr (h, p))"
  shows "splitHostPort s = splitHostPort_full s (- 1)"
proof (cases "strings_HasPrefix s ''[''")
  case False
  with net_SplitHostPort_success_colon [OF ok] show ?thesis
    by (simp add: splitHostPort_def strings_LastIndex_single)
next
  case True
  then obtain t where s: "s = CHR ''['' # t"
    by (auto simp: strings_HasPrefix_bracket)
  define i where "i = LastIndexByteString s CHR '':''"
  define e where "e = IndexByteString s CHR '']''"
  define a where "a = LastIndexByteString s CHR '']''"
  from net_SplitHostPort_success_bracket [OF ok [unfolded s]]
  have e0: "0 \<le> e" and ei: "e + 1 = i" and none: "CHR '']'' \<notin> set (drop (nat i) s)"
    by (simp_all add: s [symmetric] e_def i_def)
  have e_lt: "e < len s" unfolding e_def by (rule IndexByteString_upper)
  have i_lt: "i < len s" unfolding i_def by (rule LastIndexByteString_upper)
  have "s ! nat e = CHR '']''"
    using e0 unfolding e_def by (rule IndexByteString_nth)
  with e0 e_lt have "int (nat e) \<le> a"
    unfolding a_def by (intro LastIndexByteString_ge) (simp_all add: len_def)
  with e0 have "e \<le> a" by simp
  moreover from LastIndexByteString_before [OF none] e0 ei have "a < e + 1"
    by (simp add: a_def)
  ultimately have ae: "a = e" by simp
  have sl: "str_slice s a (len s) = Inr (drop (nat a) s)"
    using ae e0 e_lt by (simp add: str_slice_def len_def)
  have "s ! nat i = CHR '':''"
    using ei e0 unfolding i_def by (intro LastIndexByteString_nth) simp
  moreover have "nat i - nat a < length (drop (nat a) s)"
    using ae ei e0 i_lt by (simp add: len_def)
  moreover have "drop (nat a) s ! (nat i - nat a) = s ! nat i"
    using ae ei e0 i_lt by (simp add: len_def)
  ultimately have "CHR '':'' \<in> set (drop (nat a) s)"
    by (metis nth_mem)
  then have colon: "\<not> LastIndexByteString (drop (nat a) s) CHR '':'' < 0"
    by (simp add: LastIndexByteString_neg_iff)
  from True ae e0 sl colon show ?thesis
    by (simp add: splitHostPort_def strings_LastIndex_single a_def [symmetric] and_then_def)
qed

lemma splitHostPort_full_returns:
  "\<exists>h p. splitHostPort_full s (- 1) = Inr (h, p) \<and> (p = - 1 \<or> 0 \<le> p \<and> p \<le> 65535)"
proof -
  from net_SplitHostPort_total obtain r where r: "net_SplitHostPort s = Inr r" by blast
  show ?thesis
  proof (cases r)
    case (Inl err)
    with r show ?thesis by (simp add: splitHostPort_full_def and_then_def)
  next
    case (Inr hp)
    obtain host pStr where hp: "hp = (host, pStr)" by (cases hp)
    show ?thesis
    proof (cases "strconv_ParseUint_10_16 pStr")
      case (Inl err)
      with r Inr hp show ?thesis by (simp add: splitHostPort_full_def and_then_def)
    next
      case p: (Inr p)
      from strconv_ParseUint_10_16_range [OF p] r Inr hp p show ?thesis
        by (simp add: splitHostPort_full_def and_then_def)
    qed
  qed
qed

lemma splitHostPort_returns:
  "\<exists>h p. splitHostPort s = Inr (h, p) \<and> (p = - 1 \<or> 0 \<le> p \<and> p \<le> 65535)"
proof (cases "strings_HasPrefix s ''[''")
  case bracket: True
  then have first: "0 < len s" "s ! 0 = CHR ''[''"
    by (cases s; simp add: strings_HasPrefix_def len_def)+
  define a where "a = strings_LastIndex s '']''"
  have a_lt: "a < len s"
    unfolding a_def by (simp add: strings_LastIndex_single LastIndexByteString_upper)
  show ?thesis
  proof (cases "a < 0")
    case True
    with bracket show ?thesis
      by (simp add: splitHostPort_def a_def [symmetric])
  next
    case a0: False
    then have "s ! nat a = CHR '']''"
      unfolding a_def by (simp add: strings_LastIndex_single LastIndexByteString_nth)
    with first have "a \<noteq> 0" by auto
    with a0 have a1: "1 \<le> a" by simp
    have sl1: "str_slice s a (len s) = Inr (drop (nat a) s)"
      using a1 a_lt by (simp add: str_slice_def len_def)
    have "\<exists>h. str_slice s 1 a = Inr h"
      using a1 a_lt by (simp add: str_slice_def)
    then obtain h where h: "str_slice s 1 a = Inr h" by blast
    from splitHostPort_full_returns [of s] bracket a0 sl1 h show ?thesis
      by (auto simp add: splitHostPort_def a_def [symmetric] and_then_def Let_def)
  qed
next
  case False
  with splitHostPort_full_returns [of s] show ?thesis
    by (auto simp add: splitHostPort_def Let_def)
qed

section \<open>The extractors return, and what they return\<close>

lemma peerName_returns:
  "peerName c address = Inr [] \<or>
   (\<exists>h. h \<noteq> [] \<and> peerName c address = Inr [Key_String (serverAddressKey c) h])"
proof -
  from splitHostPort_returns [of address] obtain h p
    where "splitHostPort address = Inr (h, p)" by blast
  then show ?thesis
    by (cases "h = []") (auto simp: peerName_def and_then_def)
qed

lemma ClientRequest_returns:
  "\<exists>hl. ClientRequest req = Inr (Key_String HTTPRequestMethodKey (Method req) # hl)
     \<and> (hl = [] \<or> (\<exists>h. h \<noteq> [] \<and> hl = [Key_String ServerAddressKey h]))"
proof -
  from splitHostPort_returns [of "Host req"] obtain peer p
    where sp: "splitHostPort (Host req) = Inr (peer, p)" by blast
  show ?thesis
  proof (cases "peer = []")
    case True
    with sp show ?thesis
      by (simp add: ClientRequest_def and_then_def hc_def)
  next
    case False
    from peerName_returns [of hc peer] show ?thesis
    proof
      assume "peerName hc peer = Inr []"
      with sp False show ?thesis
        by (simp add: ClientRequest_def and_then_def hc_def)
    next
      assume "\<exists>h. h \<noteq> [] \<and> peerName hc peer = Inr [Key_String (serverAddressKey hc) h]"
      then obtain h where "h \<noteq> []" "peerName hc peer = Inr [Key_String ServerAddressKey h]"
        by (auto simp: hc_def)
      with sp False show ?thesis
        by (auto simp: ClientRequest_def and_then_def hc_def)
    qed
  qed
qed

lemma ClientResponse_returns:
  "ClientResponse (Some resp) =
     Inr (if 0 < StatusCode resp then [Key_Int HTTPRequestMethodKey (StatusCode resp)] else [])"
  by (simp add: ClientResponse_def hc_def)

section \<open>float64 rounding keeps the sign\<close>







section \<open>An attribute set is sorted by key and holds each key once\<close>

lemma dedup_last_Cons:
  "dedup_last (x # xs) =
     (case dedup_last xs of
        [] \<Rightarrow> [x]
      | k # _ \<Rightarrow> if Key x = Key k then dedup_last xs else x # dedup_last xs)"
  unfolding dedup_last_def by simp

lemma dedup_last_Nil: "dedup_last [] = []"
  by (simp add: dedup_last_def)

lemma dedup_last_hd:
  "xs \<noteq> [] \<Longrightarrow> dedup_last xs \<noteq> [] \<and> Key (hd (dedup_last xs)) = Key (hd xs)"
  by (induction xs) (auto simp: dedup_last_Cons dedup_last_Nil split: list.splits)

lemma dedup_last_keys: "set (map Key (dedup_last xs)) = set (map Key xs)"
proof (induction xs)
  case Nil
  then show ?case by (simp add: dedup_last_Nil)
next
  case (Cons x xs)
  show ?case
  proof (cases "dedup_last xs")
    case Nil
    with Cons show ?thesis by (simp add: dedup_last_Cons)
  next
    case (Cons k ks)
    with Cons.IH show ?thesis by (auto simp: dedup_last_Cons)
  qed
qed

lemma dedup_last_strict:
  "sorted (map Key xs) \<Longrightarrow> sorted_wrt (<) (map Key (dedup_last xs))"
proof (induction xs)
  case Nil
  then show ?case by (simp add: dedup_last_Nil)
next
  case (Cons x xs)
  then have IH: "sorted_wrt (<) (map Key (dedup_last xs))" by simp
  show ?case
  proof (cases "dedup_last xs")
    case Nil
    then show ?thesis by (simp add: dedup_last_Cons)
  next
    case (Cons k ks)
    show ?thesis
    proof (cases "Key x = Key k")
      case True
      with Cons IH show ?thesis by (simp add: dedup_last_Cons)
    next
      case False
      have "\<forall>y \<in> set (map Key xs). Key x \<le> y"
        using Cons.prems by simp
      then have "\<forall>y \<in> set (map Key (dedup_last xs)). Key x \<le> y"
        by (simp only: dedup_last_keys)
      moreover have "Key k \<le> (y :: string)" if "y \<in> set (map Key ks)" for y
        using IH Cons that by (auto simp: less_imp_le)
      ultimately have "\<forall>y \<in> set (map Key (dedup_last xs)). Key x < y"
        using False IH Cons by (auto simp: order_le_less)
      with IH Cons False show ?thesis by (simp add: dedup_last_Cons)
    qed
  qed
qed

lemma attribute_NewSet_keys: "set (map Key (attribute_NewSet kvs)) = set (map Key kvs)"
proof (cases "kvs = []")
  case True
  then show ?thesis by (simp add: attribute_NewSet_def)
next
  case False
  then have "set (map Key (attribute_NewSet kvs)) = set (map Key (sort_key Key kvs))"
    by (simp only: attribute_NewSet_def dedup_last_keys if_False)
  then show ?thesis by simp
qed

lemma attribute_NewSet_strict: "sorted_wrt (<) (map Key (attribute_NewSet kvs))"
  by (simp add: attribute_NewSet_def dedup_last_strict)

lemma attribute_NewSet_sorted: "sorted (map Key (attribute_NewSet kvs))"
  using attribute_NewSet_strict [of kvs] by (simp add: strict_sorted_iff)

lemma attribute_NewSet_distinct: "distinct (map Key (attribute_NewSet kvs))"
  using attribute_NewSet_strict [of kvs] by (simp add: strict_sorted_iff)

section \<open>The successful path of the transport\<close>

text \<open>What \<open>RoundTrip\<close> returns once both extractors have returned.\<close>

lemma RoundTrip_success:
  assumes "rt t r w = ((Some resp, None), r1, w1)"
    and "ClientRequest r1 = Inr ra" and "ClientResponse (Some resp) = Inr sa"
  shows "RoundTrip t r w =
     (Inr (Some resp, None), r1,
      w1\<lparr>now := now w1 + int (lag w1),
         recorded := recorded w1 @
           [\<lparr>incr = f64_div (f64_of_int (time_Since (now w) (w1\<lparr>now := now w1 + int (lag w1)\<rparr>)))
                          (f64_of_int Millisecond),
             attrs = metric_WithAttributes (ra @ sa)\<rparr>]\<rparr>)"
  using assms by (simp add: RoundTrip_def and_then_def Let_def)

section \<open>The attribute keys of one measurement\<close>

text \<open>
  C1. The request attributes followed by the response attributes are to hold no key
  twice, the status code standing under a key of its own. \<open>ClientResponse\<close> stores the
  status code under \<open>httpRequestMethodKey\<close>, the key of the method label: for a
  \<open>GET\<close> to \<open>example.com\<close> answered with status 200, the request attributes and the
  response attributes both carry the key \<open>http.request.method\<close>, and in the attribute
  set recorded with the measurement the status code has taken the place of the verb.
\<close>

theorem ClientResponse_reuses_method_key:
  "ClientRequest \<lparr>Method = ''GET'', URL = ''http://example.com/'', Header = [], Host = ''example.com''\<rparr>
     = Inr [KeyValue ''http.request.method'' (STRING ''GET''),
            KeyValue ''server.address'' (STRING ''example.com'')]
   \<and> ClientResponse (Some \<lparr>StatusCode = 200, ResponseHeader = [], Body = ''ok''\<rparr>)
     = Inr [KeyValue ''http.request.method'' (INT64 200)]
   \<and> attrs (last (recorded (snd (snd (RoundTrip
         \<lparr>rt = \<lambda>r w. ((Some \<lparr>StatusCode = 200, ResponseHeader = [], Body = ''ok''\<rparr>, None), r, w)\<rparr>
         \<lparr>Method = ''GET'', URL = ''http://example.com/'', Header = [], Host = ''example.com''\<rparr>
         \<lparr>now = 0, lag = 0, recorded = []\<rparr>)))))
     = [KeyValue ''http.request.method'' (INT64 200),
        KeyValue ''server.address'' (STRING ''example.com'')]"
proof -
  have ra: "ClientRequest \<lparr>Method = ''GET'', URL = ''http://example.com/'', Header = [], Host = ''example.com''\<rparr>
     = Inr [KeyValue ''http.request.method'' (STRING ''GET''),
            KeyValue ''server.address'' (STRING ''example.com'')]"
    by code_simp
  have sa: "ClientResponse (Some \<lparr>StatusCode = 200, ResponseHeader = [], Body = ''ok''\<rparr>)
     = Inr [KeyValue ''http.request.method'' (INT64 200)]"
    by code_simp
  have set: "metric_WithAttributes
       ([KeyValue ''http.request.method'' (STRING ''GET''),
         KeyValue ''server.address'' (STRING ''example.com'')]
        @ [KeyValue ''http.request.method'' (INT64 200)])
     = [KeyValue ''http.request.method'' (INT64 200),
        KeyValue ''server.address'' (STRING ''example.com'')]"
    by code_simp
  have "attrs (last (recorded (snd (snd (RoundTrip
         \<lparr>rt = \<lambda>r w. ((Some \<lparr>StatusCode = 200, ResponseHeader = [], Body = ''ok''\<rparr>, None), r, w)\<rparr>
         \<lparr>Method = ''GET'', URL = ''http://example.com/'', Header = [], Host = ''example.com''\<rparr>
         \<lparr>now = 0, lag = 0, recorded = []\<rparr>)))))
     = metric_WithAttributes
       ([KeyValue ''http.request.method'' (STRING ''GET''),
         KeyValue ''server.address'' (STRING ''example.com'')]
        @ [KeyValue ''http.request.method'' (INT64 200)])"
    by (subst RoundTrip_success [OF _ ra sa]) simp_all
  with ra sa set show ?thesis by simp
qed

section \<open>A port that does not parse\<close>

text \<open>
  C2, as the code has it. When \<open>net.SplitHostPort\<close> accepts the authority, giving a
  host and a port text, and the port text fails to parse as an unsigned 16-bit integer
  (it is not a decimal number, or its value exceeds 65535), \<open>splitHostPort\<close> returns
  that host, not the empty string, with the port absent (\<open>-1\<close>).
\<close>

theorem splitHostPort_bad_port_keeps_host:
  assumes "net_SplitHostPort hostport = Inr (Inr (host, pStr))"
    and "strconv_ParseUint_10_16 pStr = Inl err"
  shows "splitHostPort hostport = Inr (host, - 1)"
  using assms by (simp add: splitHostPort_reaches_full splitHostPort_full_def and_then_def)

theorem splitHostPort_bad_port_keeps_host_witness:
  "splitHostPort ''host:notaport'' = Inr (''host'', - 1)"
proof -
  have a: "net_SplitHostPort ''host:notaport'' = Inr (Inr (''host'', ''notaport''))"
    by code_simp
  have b: "strconv_ParseUint_10_16 ''notaport'' = Inl ErrSyntax"
    by code_simp
  show ?thesis
    by (rule splitHostPort_bad_port_keeps_host [OF a b])
qed

text \<open>
  The host is not emptied: \<open>host:notaport\<close>, whose port text is not a number, and
  \<open>host:65536\<close>, whose port is out of range, both split to the host \<open>host\<close>.
\<close>

theorem splitHostPort_notaport_counterexample:
  "strconv_ParseUint_10_16 ''notaport'' = Inl ErrSyntax
   \<and> splitHostPort ''host:notaport'' = Inr (''host'', - 1)
   \<and> splitHostPort ''host:notaport'' \<noteq> Inr ('''', - 1)
   \<and> strconv_ParseUint_10_16 ''65536'' = Inl ErrRange
   \<and> splitHostPort ''host:65536'' = Inr (''host'', - 1)"
  by code_simp

section \<open>The server-address label\<close>

text \<open>
  C3. A non-empty host that the split of the authority yields is to be the value of the
  server-address label. \<open>ClientRequest\<close> hands that host to \<open>peerName\<close>, which splits
  it a second time: \<open>[::1]:443\<close> splits to the host \<open>::1\<close>, the second split
  rejects \<open>::1\<close> for its colons, and the request attributes hold the method label only.
\<close>

theorem ClientRequest_drops_bracketed_host:
  "splitHostPort ''[::1]:443'' = Inr (''::1'', 443)
   \<and> splitHostPort ''::1'' = Inr ('''', - 1)
   \<and> ClientRequest \<lparr>Method = ''GET'', URL = ''https://[::1]:443/'', Header = [], Host = ''[::1]:443''\<rparr>
     = Inr [KeyValue ''http.request.method'' (STRING ''GET'')]"
  by code_simp

section \<open>The host/port vectors\<close>

text \<open>
  C4. The split maps \<open>example.com\<close> to (\<open>example.com\<close>, absent), \<open>example.com:8080\<close> to
  (\<open>example.com\<close>, 8080), \<open>[::1]\<close> to (\<open>::1\<close>, absent), \<open>[::1]:443\<close> to (\<open>::1\<close>, 443),
  \<open>[::1%eth0]:443\<close> to (\<open>::1%eth0\<close>, 443), \<open>:9090\<close> to (empty, 9090), \<open>[unterminated\<close>
  to (empty, absent) and the empty string to (empty, absent); absent is \<open>-1\<close>.
\<close>

theorem splitHostPort_vectors:
  "splitHostPort ''example.com'' = Inr (''example.com'', - 1)
   \<and> splitHostPort ''example.com:8080'' = Inr (''example.com'', 8080)
   \<and> splitHostPort ''[::1]'' = Inr (''::1'', - 1)
   \<and> splitHostPort ''[::1]:443'' = Inr (''::1'', 443)
   \<and> splitHostPort ''[::1%eth0]:443'' = Inr (''::1%eth0'', 443)
   \<and> splitHostPort '':9090'' = Inr ('''', 9090)
   \<and> splitHostPort ''[unterminated'' = Inr ('''', - 1)
   \<and> splitHostPort '''' = Inr ('''', - 1)"
  by code_simp

section \<open>A dispatch that fails\<close>

text \<open>
  C5. When the wrapped dispatcher returns an error, \<open>RoundTrip\<close> returns the
  dispatcher's response pointer and error as they are, and leaves the world as the
  dispatcher left it: the histogram receives nothing. No attribute is extracted: the
  call returns without a panic also when the response pointer is nil, which
  \<open>ClientResponse\<close> would dereference.
\<close>

theorem RoundTrip_failure_passes_through:
  assumes "rt t r w = ((res, Some e), r1, w1)"
  shows "RoundTrip t r w = (Inr (res, Some e), r1, w1)
    \<and> recorded (snd (snd (RoundTrip t r w))) = recorded w1"
  using assms by (simp add: RoundTrip_def)

theorem RoundTrip_failure_passes_through_witness:
  "RoundTrip \<lparr>rt = \<lambda>r w. ((None, Some (GoError ''connection refused'')), r, w\<lparr>now := now w + 7\<rparr>)\<rparr>
     \<lparr>Method = ''GET'', URL = ''http://example.com/'', Header = [], Host = ''example.com''\<rparr>
     \<lparr>now = 0, lag = 3, recorded = []\<rparr>
   = (Inr (None, Some (GoError ''connection refused'')),
      \<lparr>Method = ''GET'', URL = ''http://example.com/'', Header = [], Host = ''example.com''\<rparr>,
      \<lparr>now = 7, lag = 3, recorded = []\<rparr>)"
  using RoundTrip_failure_passes_through
    [of "\<lparr>rt = \<lambda>r w. ((None, Some (GoError ''connection refused'')), r, w\<lparr>now := now w + 7\<rparr>)\<rparr>"
        "\<lparr>Method = ''GET'', URL = ''http://example.com/'', Header = [], Host = ''example.com''\<rparr>"
        "\<lparr>now = 0, lag = 3, recorded = []\<rparr>"
        None "GoError ''connection refused''"
        "\<lparr>Method = ''GET'', URL = ''http://example.com/'', Header = [], Host = ''example.com''\<rparr>"
        "\<lparr>now = 7, lag = 3, recorded = []\<rparr>"]
  by simp

section \<open>A dispatch that succeeds\<close>




section \<open>The order of the attributes\<close>

text \<open>
  C7, as the code has it. The list of attributes that \<open>RoundTrip\<close> builds and gives
  to \<open>metric.WithAttributes\<close> has the request attributes first and the response
  attributes after them; the request attributes begin with the method label, always
  there and holding the verb as a string, followed by nothing or by the one
  server-address label, whose host is not empty. The attribute set recorded with the
  measurement is the set of that list: it holds the keys of the list, each once, in
  ascending order of the keys.
\<close>

theorem RoundTrip_attrs_order:
  assumes "rt t r w = ((Some resp, None), r1, w1)"
  shows "\<exists>hl sa.
      ClientRequest r1 = Inr (Key_String HTTPRequestMethodKey (Method r1) # hl)
    \<and> (hl = [] \<or> (\<exists>h. h \<noteq> [] \<and> hl = [Key_String ServerAddressKey h]))
    \<and> ClientResponse (Some resp) = Inr sa
    \<and> attrs (last (recorded (snd (snd (RoundTrip t r w)))))
        = metric_WithAttributes ((Key_String HTTPRequestMethodKey (Method r1) # hl) @ sa)
    \<and> sorted (map Key (attrs (last (recorded (snd (snd (RoundTrip t r w)))))))
    \<and> distinct (map Key (attrs (last (recorded (snd (snd (RoundTrip t r w)))))))
    \<and> set (map Key (attrs (last (recorded (snd (snd (RoundTrip t r w)))))))
        = set (map Key ((Key_String HTTPRequestMethodKey (Method r1) # hl) @ sa))"
proof -
  from ClientRequest_returns [of r1] obtain hl
    where ra: "ClientRequest r1 = Inr (Key_String HTTPRequestMethodKey (Method r1) # hl)"
      and hl: "hl = [] \<or> (\<exists>h. h \<noteq> [] \<and> hl = [Key_String ServerAddressKey h])"
    by blast
  from ClientResponse_returns [of resp] obtain sa where sa: "ClientResponse (Some resp) = Inr sa"
    by blast
  define given where "given = (Key_String HTTPRequestMethodKey (Method r1) # hl) @ sa"
  from RoundTrip_success [OF assms ra sa]
  have emitted: "attrs (last (recorded (snd (snd (RoundTrip t r w))))) = metric_WithAttributes given"
    by (simp add: given_def)
  have "sorted (map Key (metric_WithAttributes given))"
    and "distinct (map Key (metric_WithAttributes given))"
    and "set (map Key (metric_WithAttributes given)) = set (map Key given)"
    unfolding metric_WithAttributes_def
    by (rule attribute_NewSet_sorted, rule attribute_NewSet_distinct, rule attribute_NewSet_keys)
  with emitted have
    "attrs (last (recorded (snd (snd (RoundTrip t r w))))) = metric_WithAttributes given
     \<and> sorted (map Key (attrs (last (recorded (snd (snd (RoundTrip t r w)))))))
     \<and> distinct (map Key (attrs (last (recorded (snd (snd (RoundTrip t r w)))))))
     \<and> set (map Key (attrs (last (recorded (snd (snd (RoundTrip t r w))))))) = set (map Key given)"
    by simp
  with ra hl sa show ?thesis
    unfolding given_def by blast
qed

theorem RoundTrip_attrs_order_witness:
  "\<exists>hl sa.
      ClientRequest \<lparr>Method = ''POST'', URL = ''http://example.com:8080/'', Header = [], Host = ''example.com:8080''\<rparr>
        = Inr (Key_String HTTPRequestMethodKey ''POST'' # hl)
    \<and> (hl = [] \<or> (\<exists>h. h \<noteq> [] \<and> hl = [Key_String ServerAddressKey h]))
    \<and> ClientResponse (Some \<lparr>StatusCode = 201, ResponseHeader = [], Body = ''''\<rparr>) = Inr sa
    \<and> attrs (last (recorded (snd (snd (RoundTrip
         \<lparr>rt = \<lambda>r w. ((Some \<lparr>StatusCode = 201, ResponseHeader = [], Body = ''''\<rparr>, None), r, w)\<rparr>
         \<lparr>Method = ''POST'', URL = ''http://example.com:8080/'', Header = [], Host = ''example.com:8080''\<rparr>
         \<lparr>now = 0, lag = 0, recorded = []\<rparr>)))))
        = metric_WithAttributes ((Key_String HTTPRequestMethodKey ''POST'' # hl) @ sa)
    \<and> sorted (map Key (attrs (last (recorded (snd (snd (RoundTrip
         \<lparr>rt = \<lambda>r w. ((Some \<lparr>StatusCode = 201, ResponseHeader = [], Body = ''''\<rparr>, None), r, w)\<rparr>
         \<lparr>Method = ''POST'', URL = ''http://example.com:8080/'', Header = [], Host = ''example.com:8080''\<rparr>
         \<lparr>now = 0, lag = 0, recorded = []\<rparr>)))))))
    \<and> distinct (map Key (attrs (last (recorded (snd (snd (RoundTrip
         \<lparr>rt = \<lambda>r w. ((Some \<lparr>StatusCode = 201, ResponseHeader = [], Body = ''''\<rparr>, None), r, w)\<rparr>
         \<lparr>Method = ''POST'', URL = ''http://example.com:8080/'', Header = [], Host = ''example.com:8080''\<rparr>
         \<lparr>now = 0, lag = 0, recorded = []\<rparr>)))))))
    \<and> set (map Key (attrs (last (recorded (snd (snd (RoundTrip
         \<lparr>rt = \<lambda>r w. ((Some \<lparr>StatusCode = 201, ResponseHeader = [], Body = ''''\<rparr>, None), r, w)\<rparr>
         \<lparr>Method = ''POST'', URL = ''http://example.com:8080/'', Header = [], Host = ''example.com:8080''\<rparr>
         \<lparr>now = 0, lag = 0, recorded = []\<rparr>)))))))
        = set (map Key ((Key_String HTTPRequestMethodKey ''POST'' # hl) @ sa))"
  using RoundTrip_attrs_order
    [of "\<lparr>rt = \<lambda>r w. ((Some \<lparr>StatusCode = 201, ResponseHeader = [], Body = ''''\<rparr>, None), r, w)\<rparr>"
        "\<lparr>Method = ''POST'', URL = ''http://example.com:8080/'', Header = [], Host = ''example.com:8080''\<rparr>"
        "\<lparr>now = 0, lag = 0, recorded = []\<rparr>"
        "\<lparr>StatusCode = 201, ResponseHeader = [], Body = ''''\<rparr>"
        "\<lparr>Method = ''POST'', URL = ''http://example.com:8080/'', Header = [], Host = ''example.com:8080''\<rparr>"
        "\<lparr>now = 0, lag = 0, recorded = []\<rparr>"]
  by simp

text \<open>
  The recorded set itself is not in the order of the list, and the verb may be missing
  from it: for a \<open>POST\<close> to \<open>example.com:8080\<close> answered with status 201 the set
  begins with the status code, which comes from the response, under the key
  \<open>http.request.method\<close>, the server-address label of the request follows, and no
  entry holds \<open>POST\<close>.
\<close>

theorem RoundTrip_attrs_order_counterexample:
  "attrs (last (recorded (snd (snd (RoundTrip
      \<lparr>rt = \<lambda>r w. ((Some \<lparr>StatusCode = 201, ResponseHeader = [], Body = ''''\<rparr>, None), r, w)\<rparr>
      \<lparr>Method = ''POST'', URL = ''http://example.com:8080/'', Header = [], Host = ''example.com:8080''\<rparr>
      \<lparr>now = 0, lag = 0, recorded = []\<rparr>)))))
     = [KeyValue ''http.request.method'' (INT64 201),
        KeyValue ''server.address'' (STRING ''example.com'')]
   \<and> KeyValue ''http.request.method'' (STRING ''POST'')
       \<notin> set [KeyValue ''http.request.method'' (INT64 201),
                KeyValue ''server.address'' (STRING ''example.com'')]
   \<and> ClientRequest \<lparr>Method = ''POST'', URL = ''http://example.com:8080/'', Header = [], Host = ''example.com:8080''\<rparr>
     = Inr [KeyValue ''http.request.method'' (STRING ''POST''),
            KeyValue ''server.address'' (STRING ''example.com'')]
   \<and> ClientResponse (Some \<lparr>StatusCode = 201, ResponseHeader = [], Body = ''''\<rparr>)
     = Inr [KeyValue ''http.request.method'' (INT64 201)]"
proof -
  have ra: "ClientRequest \<lparr>Method = ''POST'', URL = ''http://example.com:8080/'', Header = [], Host = ''example.com:8080''\<rparr>
     = Inr [KeyValue ''http.request.method'' (STRING ''POST''),
            KeyValue ''server.address'' (STRING ''example.com'')]"
    by code_simp
  have sa: "ClientResponse (Some \<lparr>StatusCode = 201, ResponseHeader = [], Body = ''''\<rparr>)
     = Inr [KeyValue ''http.request.method'' (INT64 201)]"
    by code_simp
  have emitted: "metric_WithAttributes
       ([KeyValue ''http.request.method'' (STRING ''POST''),
         KeyValue ''server.address'' (STRING ''example.com'')]
        @ [KeyValue ''http.request.method'' (INT64 201)])
     = [KeyValue ''http.request.method'' (INT64 201),
        KeyValue ''server.address'' (STRING ''example.com'')]"
    by code_simp
  have "rt \<lparr>rt = \<lambda>r w. ((Some \<lparr>StatusCode = 201, ResponseHeader = [], Body = ''''\<rparr>, None), r, w)\<rparr>
      \<lparr>Method = ''POST'', URL = ''http://example.com:8080/'', Header = [], Host = ''example.com:8080''\<rparr>
      \<lparr>now = 0, lag = 0, recorded = []\<rparr>
    = ((Some \<lparr>StatusCode = 201, ResponseHeader = [], Body = ''''\<rparr>, None),
       \<lparr>Method = ''POST'', URL = ''http://example.com:8080/'', Header = [], Host = ''example.com:8080''\<rparr>,
       \<lparr>now = 0, lag = 0, recorded = []\<rparr>)"
    by simp
  from RoundTrip_success [OF this ra sa] emitted
  have "attrs (last (recorded (snd (snd (RoundTrip
      \<lparr>rt = \<lambda>r w. ((Some \<lparr>StatusCode = 201, ResponseHeader = [], Body = ''''\<rparr>, None), r, w)\<rparr>
      \<lparr>Method = ''POST'', URL = ''http://example.com:8080/'', Header = [], Host = ''example.com:8080''\<rparr>
      \<lparr>now = 0, lag = 0, recorded = []\<rparr>)))))
     = [KeyValue ''http.request.method'' (INT64 201),
        KeyValue ''server.address'' (STRING ''example.com'')]"
    by simp
  with ra sa show ?thesis by simp
qed

section \<open>The attributes depend on the request and the response alone\<close>

text \<open>
  C8. Two successful dispatches that end with the same request object and the same
  response record the same attributes, keys, values and order alike, whatever the
  transport, the clock and the earlier content of the histogram are in each: the
  extractors read nothing but the pair.
\<close>

theorem attrs_determined_by_pair:
  assumes "rt t r w = ((Some resp, None), r1, w1)"
    and "rt t' r' w' = ((Some resp, None), r1, w1')"
  shows "attrs (last (recorded (snd (snd (RoundTrip t r w)))))
       = attrs (last (recorded (snd (snd (RoundTrip t' r' w')))))"
proof -
  from ClientRequest_returns [of r1] obtain ra where ra: "ClientRequest r1 = Inr ra" by blast
  from ClientResponse_returns [of resp] obtain sa where sa: "ClientResponse (Some resp) = Inr sa"
    by blast
  have "attrs (last (recorded (snd (snd (RoundTrip t r w))))) = metric_WithAttributes (ra @ sa)"
    using RoundTrip_success [OF assms(1) ra sa] by simp
  moreover have "attrs (last (recorded (snd (snd (RoundTrip t' r' w'))))) = metric_WithAttributes (ra @ sa)"
    using RoundTrip_success [OF assms(2) ra sa] by simp
  ultimately show ?thesis by simp
qed

theorem attrs_determined_by_pair_witness:
  "attrs (last (recorded (snd (snd (RoundTrip
      \<lparr>rt = \<lambda>r w. ((Some \<lparr>StatusCode = 404, ResponseHeader = [], Body = ''''\<rparr>, None), r,
                      w\<lparr>now := now w + 250000\<rparr>)\<rparr>
      \<lparr>Method = ''GET'', URL = ''http://example.com/'', Header = [], Host = ''example.com''\<rparr>
      \<lparr>now = 0, lag = 0, recorded = []\<rparr>)))))
   = attrs (last (recorded (snd (snd (RoundTrip
      \<lparr>rt = \<lambda>r w. ((Some \<lparr>StatusCode = 404, ResponseHeader = [], Body = ''''\<rparr>, None),
                      r\<lparr>Method := ''GET''\<rparr>, w\<lparr>now := now w + 9000000\<rparr>)\<rparr>
      \<lparr>Method = ''GET'', URL = ''http://example.com/'', Header = [], Host = ''example.com''\<rparr>
      \<lparr>now = 77, lag = 1200, recorded = [\<lparr>incr = 1 / 4, attrs = []\<rparr>]\<rparr>)))))"
  using attrs_determined_by_pair
    [of "\<lparr>rt = \<lambda>r w. ((Some \<lparr>StatusCode = 404, ResponseHeader = [], Body = ''''\<rparr>, None), r,
                      w\<lparr>now := now w + 250000\<rparr>)\<rparr>"
        "\<lparr>Method = ''GET'', URL = ''http://example.com/'', Header = [], Host = ''example.com''\<rparr>"
        "\<lparr>now = 0, lag = 0, recorded = []\<rparr>"
        "\<lparr>StatusCode = 404, ResponseHeader = [], Body = ''''\<rparr>"
        "\<lparr>Method = ''GET'', URL = ''http://example.com/'', Header = [], Host = ''example.com''\<rparr>"
        "\<lparr>now = 250000, lag = 0, recorded = []\<rparr>"
        "\<lparr>rt = \<lambda>r w. ((Some \<lparr>StatusCode = 404, ResponseHeader = [], Body = ''''\<rparr>, None),
                      r\<lparr>Method := ''GET''\<rparr>, w\<lparr>now := now w + 9000000\<rparr>)\<rparr>"
        "\<lparr>Method = ''GET'', URL = ''http://example.com/'', Header = [], Host = ''example.com''\<rparr>"
        "\<lparr>now = 77, lag = 1200, recorded = [\<lparr>incr = 1 / 4, attrs = []\<rparr>]\<rparr>"
        "\<lparr>now = 9000077, lag = 1200, recorded = [\<lparr>incr = 1 / 4, attrs = []\<rparr>]\<rparr>"]
  by simp

section \<open>The request and the response pass through untouched\<close>

text \<open>
  C9. Whether the wrapped dispatcher fails or succeeds, \<open>RoundTrip\<close> writes nothing
  to the request: after the call the request object is the one the dispatcher left
  (\<open>r1\<close>, which is the caller's \<open>r\<close>, method, target and headers, for a dispatcher
  that keeps the \<open>http.RoundTripper\<close> contract of not modifying the request). The
  response pointer and the error are returned as the dispatcher gave them, so the status,
  the headers and the body of the response are untouched. A dispatcher that returns
  neither a response nor an error is outside its contract and is left out.
\<close>

theorem RoundTrip_frame:
  assumes "rt t r w = ((res, err), r1, w1)" and "err \<noteq> None \<or> res \<noteq> None"
  shows "fst (RoundTrip t r w) = Inr (res, err) \<and> fst (snd (RoundTrip t r w)) = r1"
proof (cases err)
  case (Some e)
  with assms(1) show ?thesis by (simp add: RoundTrip_def)
next
  case None
  with assms(2) obtain resp where resp: "res = Some resp" by auto
  from ClientRequest_returns [of r1] obtain ra where ra: "ClientRequest r1 = Inr ra" by blast
  from ClientResponse_returns [of resp] obtain sa where sa: "ClientResponse (Some resp) = Inr sa"
    by blast
  from RoundTrip_success [OF assms(1) [unfolded None resp] ra sa] None resp
  show ?thesis by simp
qed

theorem RoundTrip_frame_witness:
  "fst (RoundTrip
      \<lparr>rt = \<lambda>r w. ((Some \<lparr>StatusCode = 200, ResponseHeader = [(''Content-Type'', [''text/plain''])],
                             Body = ''Hello, world!''\<rparr>, None), r, w\<lparr>now := now w + 5\<rparr>)\<rparr>
      \<lparr>Method = ''GET'', URL = ''http://127.0.0.1:8080/'', Header = [(''Accept'', [''*/*''])],
         Host = ''127.0.0.1:8080''\<rparr>
      \<lparr>now = 0, lag = 0, recorded = []\<rparr>)
     = Inr (Some \<lparr>StatusCode = 200, ResponseHeader = [(''Content-Type'', [''text/plain''])],
                   Body = ''Hello, world!''\<rparr>, None)
   \<and> fst (snd (RoundTrip
      \<lparr>rt = \<lambda>r w. ((Some \<lparr>StatusCode = 200, ResponseHeader = [(''Content-Type'', [''text/plain''])],
                             Body = ''Hello, world!''\<rparr>, None), r, w\<lparr>now := now w + 5\<rparr>)\<rparr>
      \<lparr>Method = ''GET'', URL = ''http://127.0.0.1:8080/'', Header = [(''Accept'', [''*/*''])],
         Host = ''127.0.0.1:8080''\<rparr>
      \<lparr>now = 0, lag = 0, recorded = []\<rparr>))
     = \<lparr>Method = ''GET'', URL = ''http://127.0.0.1:8080/'', Header = [(''Accept'', [''*/*''])],
         Host = ''127.0.0.1:8080''\<rparr>"
  using RoundTrip_frame
    [of "\<lparr>rt = \<lambda>r w. ((Some \<lparr>StatusCode = 200, ResponseHeader = [(''Content-Type'', [''text/plain''])],
                             Body = ''Hello, world!''\<rparr>, None), r, w\<lparr>now := now w + 5\<rparr>)\<rparr>"
        "\<lparr>Method = ''GET'', URL = ''http://127.0.0.1:8080/'', Header = [(''Accept'', [''*/*''])],
           Host = ''127.0.0.1:8080''\<rparr>"
        "\<lparr>now = 0, lag = 0, recorded = []\<rparr>"
        "Some \<lparr>StatusCode = 200, ResponseHeader = [(''Content-Type'', [''text/plain''])],
                Body = ''Hello, world!''\<rparr>"
        None
        "\<lparr>Method = ''GET'', URL = ''http://127.0.0.1:8080/'', Header = [(''Accept'', [''*/*''])],
           Host = ''127.0.0.1:8080''\<rparr>"
        "\<lparr>now = 5, lag = 0, recorded = []\<rparr>"]
  by simp

section \<open>splitHostPort is total and its port is in range\<close>

text \<open>
  C10. On every string \<open>splitHostPort\<close> returns a host and a port, no index or slice
  expression on its way going out of range, and the port is either \<open>-1\<close> or a number
  from 0 to 65535.
\<close>

theorem splitHostPort_total_port_range:
  "\<exists>host port. splitHostPort hostport = Inr (host, port)
     \<and> (port = - 1 \<or> 0 \<le> port \<and> port \<le> 65535)"
  by (rule splitHostPort_returns)

theorem splitHostPort_total_port_range_witness:
  "\<exists>host port. splitHostPort '']:[:]::'' = Inr (host, port)
     \<and> (port = - 1 \<or> 0 \<le> port \<and> port \<le> 65535)"
  by (rule splitHostPort_total_port_range)

end
